theory Spec2Isabelle
  imports Main "HOL-Library.Word"
begin

section \<open>The broadcast relay of server.js\<close>

text \<open>
  The WebSocket part of \<^verbatim>\<open>server.js\<close>: one transmitter streams binary chunks, the
  server forwards them to every listener. The module-level variables and the
  per-connection closure variable \<^verbatim>\<open>role\<close> are the fields of one state record; every
  handler is a function from state to state. What the server writes to a socket
  (\<^verbatim>\<open>ws.send\<close>) and what it assigns to \<^verbatim>\<open>global.__maktabBroadcast\<close> is logged in the
  state, so that the order of the effects can be read back.
\<close>

subsection \<open>Data\<close>

type_synonym conn = nat

type_synonym buffer = "8 word list"

text \<open>\<^verbatim>\<open>ws.readyState\<close> of the ws library.\<close>

datatype ready_state = CONNECTING | OPEN | CLOSING | CLOSED

text \<open>\<^verbatim>\<open>let role = null; // 'transmitter' | 'listener' | null\<close> is a \<open>role option\<close>.\<close>

datatype role = Transmitter | Listener

text \<open>The server-to-client JSON messages, and the two kinds of frame \<^verbatim>\<open>ws.send\<close> writes.\<close>

datatype control =
    Ready
  | Broadcast_start
  | Broadcast_end
  | Error string
  | Listener_count nat

datatype frame_out = Json control | Bin buffer

text \<open>
  JavaScript values as far as the handler looks at them: it compares \<^verbatim>\<open>msg.type\<close> with
  three strings and tests \<^verbatim>\<open>msg.token\<close> for truthiness. \<open>JNumber\<close> keeps the integer
  part only (of a number the handler observes whether it is zero); \<open>JObject\<close> stands
  for every array and object.
\<close>

datatype jsval = JUndefined | JNull | JBool bool | JNumber int | JString string | JObject

fun truthy :: "jsval \<Rightarrow> bool" where
  "truthy JUndefined = False"
| "truthy JNull = False"
| "truthy (JBool b) = b"
| "truthy (JNumber n) = (n \<noteq> 0)"
| "truthy (JString s) = (s \<noteq> [])"
| "truthy JObject = True"

text \<open>
  What \<^verbatim>\<open>JSON.parse\<close> returned, as the handler reads it: \<open>Null_msg\<close> is the value
  \<^verbatim>\<open>null\<close> (reading a property of it throws), \<open>Msg t k\<close> is any other value, whose
  properties \<^verbatim>\<open>type\<close> and \<^verbatim>\<open>token\<close> read as \<open>t\<close> and \<open>k\<close> (\<open>JUndefined\<close> when
  the value has no such property, as for a number or a string).
\<close>

datatype msg = Null_msg | Msg jsval jsval

text \<open>The claims of a verified token: \<^verbatim>\<open>payload.role\<close> is \<open>map_of payload ''role''\<close>.\<close>

type_synonym payload = "(string \<times> jsval) list"

text \<open>An inbound frame: the arguments \<^verbatim>\<open>(data, isBinary)\<close> of the message handler.\<close>

datatype frame = Binary buffer | Text string

datatype exn = TypeError

text \<open>The object \<^verbatim>\<open>{ isLive, listenerCount }\<close> read by the status API route.\<close>

record snapshot =
  isLive :: bool
  listenerCount :: nat

text \<open>
  \<open>listeners\<close> is the JavaScript \<^verbatim>\<open>Set\<close> in insertion order. \<open>maktabBroadcast\<close> is
  the current value of \<^verbatim>\<open>global.__maktabBroadcast\<close> and \<open>published\<close> lists every
  value assigned to it, oldest first. \<open>sent ws\<close> lists the frames written to socket
  \<open>ws\<close>, oldest first.
\<close>

record state =
  transmitterSocket :: "conn option"
  listeners :: "conn list"
  isBroadcasting :: bool
  initSegment :: "buffer option"
  maktabBroadcast :: snapshot
  published :: "snapshot list"
  role :: "conn \<Rightarrow> role option"
  readyState :: "conn \<Rightarrow> ready_state"
  sent :: "conn \<Rightarrow> frame_out list"

text \<open>
  The state when the server starts. Connections are an unbounded supply of sockets;
  each is accepted (\<open>OPEN\<close>, \<^verbatim>\<open>role = null\<close>) and has no effect before its first event.
\<close>

definition init_state :: state where
  "init_state =
     \<lparr> transmitterSocket = None,
       listeners = [],
       isBroadcasting = False,
       initSegment = None,
       maktabBroadcast = \<lparr> isLive = False, listenerCount = 0 \<rparr>,
       published = [\<lparr> isLive = False, listenerCount = 0 \<rparr>],
       role = (\<lambda>_. None),
       readyState = (\<lambda>_. OPEN),
       sent = (\<lambda>_. []) \<rparr>"

subsection \<open>The ws library, as the handlers use it\<close>

text \<open>
  \<^verbatim>\<open>ws.send\<close> writes to an open socket and drops the data on a closing or closed one;
  \<^verbatim>\<open>ws.close()\<close> starts the closing handshake of an open socket. The \<^verbatim>\<open>close\<close>
  event comes later, as an event of its own.
\<close>

definition ws_send :: "conn \<Rightarrow> frame_out \<Rightarrow> state \<Rightarrow> state" where
  "ws_send ws m s =
     (if readyState s ws = OPEN then s\<lparr> sent := (sent s)(ws := sent s ws @ [m]) \<rparr> else s)"

definition ws_close :: "conn \<Rightarrow> state \<Rightarrow> state" where
  "ws_close ws s =
     (if readyState s ws = OPEN then s\<lparr> readyState := (readyState s)(ws := CLOSING) \<rparr> else s)"

subsection \<open>Module-level functions\<close>

definition verifyAdminToken :: "(jsval \<Rightarrow> payload option) \<Rightarrow> jsval \<Rightarrow> payload option" where
  "verifyAdminToken jwtVerify token =
     (case jwtVerify token of
        None \<Rightarrow> None
      | Some p \<Rightarrow> if map_of p ''role'' = Some (JString ''admin'') then Some p else None)"

definition broadcastJSON :: "control \<Rightarrow> state \<Rightarrow> state" where
  "broadcastJSON m s =
     fold (\<lambda>ws t. if readyState t ws = OPEN then ws_send ws (Json m) t else t) (listeners s) s"

definition broadcastBinary :: "buffer \<Rightarrow> state \<Rightarrow> state" where
  "broadcastBinary d s =
     fold (\<lambda>ws t. if readyState t ws = OPEN then ws_send ws (Bin d) t else t) (listeners s) s"

definition updateGlobalState :: "state \<Rightarrow> state" where
  "updateGlobalState s =
     (let g = \<lparr> isLive = isBroadcasting s, listenerCount = length (listeners s) \<rparr>
      in s\<lparr> maktabBroadcast := g, published := published s @ [g] \<rparr>)"

definition sendListenerCount :: "state \<Rightarrow> state" where
  "sendListenerCount s =
     (case transmitterSocket s of
        None \<Rightarrow> s
      | Some t \<Rightarrow>
          if readyState s t = OPEN
          then ws_send t (Json (Listener_count (length (listeners s)))) s
          else s)"

subsection \<open>The message handler\<close>

text \<open>\<^verbatim>\<open>listeners.add(ws)\<close>: a set keeps one copy, at the place of the first insertion.\<close>

definition set_add :: "conn \<Rightarrow> conn list \<Rightarrow> conn list" where
  "set_add ws xs = (if ws \<in> set xs then xs else xs @ [ws])"

text \<open>
  A binary frame from a connection whose \<^verbatim>\<open>role\<close> is \<^verbatim>\<open>'transmitter'\<close>. A
  \<^verbatim>\<open>Buffer\<close> is truthy even when empty, so \<^verbatim>\<open>!initSegment\<close> tests for \<^verbatim>\<open>null\<close>;
  \<^verbatim>\<open>Buffer.from(data)\<close> copies the bytes.
\<close>

definition forward_chunk :: "buffer \<Rightarrow> state \<Rightarrow> state" where
  "forward_chunk d s =
     broadcastBinary d (if initSegment s = None then s\<lparr> initSegment := Some d \<rparr> else s)"

text \<open>\<^verbatim>\<open>{ type: 'transmitter' }\<close> with a token that verified.\<close>

definition register_transmitter :: "conn \<Rightarrow> state \<Rightarrow> state" where
  "register_transmitter ws s =
     (let s1 = (case transmitterSocket s of
                  None \<Rightarrow> s
                | Some old \<Rightarrow> if readyState s old = OPEN then ws_close old s else s);
          s2 = s1\<lparr> role := (role s1)(ws := Some Transmitter),
                   transmitterSocket := Some ws,
                   isBroadcasting := True,
                   initSegment := None \<rparr>;
          s3 = ws_send ws (Json Ready) s2;
          s4 = broadcastJSON Broadcast_start s3
      in updateGlobalState s4)"

text \<open>\<^verbatim>\<open>{ type: 'listener' }\<close>.\<close>

definition register_listener :: "conn \<Rightarrow> state \<Rightarrow> state" where
  "register_listener ws s =
     (let s1 = s\<lparr> role := (role s)(ws := Some Listener),
                  listeners := set_add ws (listeners s) \<rparr>;
          s2 = updateGlobalState s1;
          s3 = sendListenerCount s2
      in if isBroadcasting s3
         then (let s4 = ws_send ws (Json Broadcast_start) s3
               in case initSegment s4 of
                    None \<Rightarrow> s4
                  | Some seg \<Rightarrow> ws_send ws (Bin seg) s4)
         else ws_send ws (Json Broadcast_end) s3)"

text \<open>\<^verbatim>\<open>{ type: 'stop' }\<close> from a connection whose \<^verbatim>\<open>role\<close> is \<^verbatim>\<open>'transmitter'\<close>.\<close>

definition stop_broadcast :: "conn \<Rightarrow> state \<Rightarrow> state" where
  "stop_broadcast ws s =
     (let s1 = s\<lparr> isBroadcasting := False, transmitterSocket := None, initSegment := None \<rparr>;
          s2 = broadcastJSON Broadcast_end s1;
          s3 = updateGlobalState s2
      in ws_close ws s3)"

text \<open>
  The handler \<^verbatim>\<open>ws.on('message', async (data, isBinary) => ...)\<close>. The parser and the
  token check of the jose library are parameters: \<open>JSON_parse\<close> is \<open>None\<close> where
  \<^verbatim>\<open>JSON.parse\<close> throws, \<open>jwtVerify\<close> is \<open>None\<close> where \<^verbatim>\<open>jwtVerify\<close> throws. The
  handler awaits the token check before it has touched the state and runs to its end
  after it, so the handling of a \<^verbatim>\<open>transmitter\<close> message stands for that second
  part, at the moment it runs. Reading \<^verbatim>\<open>msg.type\<close> of \<^verbatim>\<open>null\<close> throws: the result
  is \<open>Inl TypeError\<close>.
\<close>

definition on_message ::
  "(string \<Rightarrow> msg option) \<Rightarrow> (jsval \<Rightarrow> payload option) \<Rightarrow> conn \<Rightarrow> frame \<Rightarrow> state \<Rightarrow> exn + state"
where
  "on_message JSON_parse jwtVerify ws fr s =
     (case fr of
        Binary d \<Rightarrow>
          if role s ws \<noteq> Some Transmitter then Inr s else Inr (forward_chunk d s)
      | Text d \<Rightarrow>
          (case JSON_parse d of
             None \<Rightarrow> Inr (ws_send ws (Json (Error ''Invalid JSON'')) s)
           | Some Null_msg \<Rightarrow> Inl TypeError
           | Some (Msg ty tok) \<Rightarrow>
               if ty = JString ''transmitter'' then
                 (case verifyAdminToken jwtVerify (if truthy tok then tok else JString []) of
                    None \<Rightarrow> Inr (ws_close ws (ws_send ws (Json (Error ''Unauthorized'')) s))
                  | Some p \<Rightarrow> Inr (register_transmitter ws s))
               else if ty = JString ''listener'' then Inr (register_listener ws s)
               else if ty = JString ''stop'' \<and> role s ws = Some Transmitter
                 then Inr (stop_broadcast ws s)
               else Inr s))"

subsection \<open>The close handler\<close>

definition on_close :: "conn \<Rightarrow> state \<Rightarrow> state" where
  "on_close ws s =
     (if role s ws = Some Transmitter then
        (let s1 = s\<lparr> isBroadcasting := False, transmitterSocket := None, initSegment := None \<rparr>;
             s2 = broadcastJSON Broadcast_end s1
         in updateGlobalState s2)
      else if role s ws = Some Listener then
        (let s1 = s\<lparr> listeners := removeAll ws (listeners s) \<rparr>;
             s2 = updateGlobalState s1
         in sendListenerCount s2)
      else s)"

subsection \<open>Events\<close>

text \<open>
  The server reacts to two events of a connection (its \<^verbatim>\<open>error\<close> handler only
  logs). On \<open>Close ws\<close> the library has set the socket to \<open>CLOSED\<close> before it
  calls the handler. A handler that throws has not changed the state (the only throw
  is before the first assignment) and nothing awaits its promise; what the host does
  with the unhandled rejection is not part of this model. The events of a sequence
  are not restricted: a property of every sequence holds in particular of those a
  server can see.
\<close>

datatype event = Message conn frame | Close conn

fun step ::
  "(string \<Rightarrow> msg option) \<Rightarrow> (jsval \<Rightarrow> payload option) \<Rightarrow> state \<Rightarrow> event \<Rightarrow> state"
where
  "step JSON_parse jwtVerify s (Message ws fr) =
     (case on_message JSON_parse jwtVerify ws fr s of Inl e \<Rightarrow> s | Inr s' \<Rightarrow> s')"
| "step JSON_parse jwtVerify s (Close ws) =
     on_close ws (s\<lparr> readyState := (readyState s)(ws := CLOSED) \<rparr>)"

definition run ::
  "(string \<Rightarrow> msg option) \<Rightarrow> (jsval \<Rightarrow> payload option) \<Rightarrow> event list \<Rightarrow> state"
where
  "run JSON_parse jwtVerify evs = foldl (step JSON_parse jwtVerify) init_state evs"

subsection \<open>Registration messages in a sequence of events\<close>

text \<open>
  \<open>registers_as JSON_parse ty ws e\<close>: the event \<open>e\<close> is a text frame of connection
  \<open>ws\<close> that parses to a message whose \<^verbatim>\<open>type\<close> is the string \<open>ty\<close>.
\<close>

fun registers_as :: "(string \<Rightarrow> msg option) \<Rightarrow> string \<Rightarrow> conn \<Rightarrow> event \<Rightarrow> bool" where
  "registers_as JSON_parse ty ws (Message c (Text d)) =
     (case JSON_parse d of Some (Msg t k) \<Rightarrow> c = ws \<and> t = JString ty | _ \<Rightarrow> False)"
| "registers_as JSON_parse ty ws _ = False"

definition sends :: "(string \<Rightarrow> msg option) \<Rightarrow> string \<Rightarrow> conn \<Rightarrow> event list \<Rightarrow> bool" where
  "sends JSON_parse ty ws evs = list_ex (registers_as JSON_parse ty ws) evs"

subsection \<open>A parser and a token check for the examples\<close>

text \<open>
  The examples below send five texts. \<open>example_parse\<close> gives what \<^verbatim>\<open>JSON.parse\<close>
  returns on each of the first four and on \<^verbatim>\<open>null\<close>, and fails elsewhere (the fifth,
  \<open>text_garbage\<close>, is no JSON). \<open>example_verify\<close> accepts the one token \<^verbatim>\<open>t1\<close>,
  signed for the role \<^verbatim>\<open>admin\<close>.
\<close>

definition text_listener :: string where
  "text_listener = ''{\"type\":\"listener\"}''"

definition text_stop :: string where
  "text_stop = ''{\"type\":\"stop\"}''"

definition text_transmitter :: string where
  "text_transmitter = ''{\"type\":\"transmitter\",\"token\":\"t1\"}''"

definition text_transmitter_guess :: string where
  "text_transmitter_guess = ''{\"type\":\"transmitter\",\"token\":\"guess\"}''"

definition text_garbage :: string where
  "text_garbage = ''{type:''"

definition example_parse :: "string \<Rightarrow> msg option" where
  "example_parse d =
     (if d = text_listener then Some (Msg (JString ''listener'') JUndefined)
      else if d = text_stop then Some (Msg (JString ''stop'') JUndefined)
      else if d = text_transmitter
        then Some (Msg (JString ''transmitter'') (JString ''t1''))
      else if d = text_transmitter_guess
        then Some (Msg (JString ''transmitter'') (JString ''guess''))
      else if d = ''null'' then Some Null_msg
      else None)"

definition example_verify :: "jsval \<Rightarrow> payload option" where
  "example_verify t =
     (if t = JString ''t1'' then Some [(''role'', JString ''admin'')] else None)"

text \<open>The events of the examples: connection \<open>ws\<close> sends one of the texts.\<close>

definition as_listener :: "conn \<Rightarrow> event" where
  "as_listener ws = Message ws (Text text_listener)"

definition as_transmitter :: "conn \<Rightarrow> event" where
  "as_transmitter ws = Message ws (Text text_transmitter)"

definition says_stop :: "conn \<Rightarrow> event" where
  "says_stop ws = Message ws (Text text_stop)"

definition example_run :: "event list \<Rightarrow> state" where
  "example_run evs = run example_parse example_verify evs"

text \<open>
  Two transmitters in sequence: connection 1 registers, then connection 2 registers
  with a valid token, which makes the server close connection 1. The close event of
  connection 1 follows when the closing handshake is done.
\<close>

definition two_transmitters :: "event list" where
  "two_transmitters = [as_transmitter 1, as_transmitter 2]"

text \<open>The same with a listener, connection 3, present from the start.\<close>

definition two_transmitters_heard :: "event list" where
  "two_transmitters_heard = [as_listener 3, as_transmitter 1, as_transmitter 2]"

section \<open>Properties\<close>

subsection \<open>What the library calls and the module-level functions change\<close>

lemma ws_send_other [simp]:
  "transmitterSocket (ws_send ws m s) = transmitterSocket s"
  "listeners (ws_send ws m s) = listeners s"
  "isBroadcasting (ws_send ws m s) = isBroadcasting s"
  "initSegment (ws_send ws m s) = initSegment s"
  "maktabBroadcast (ws_send ws m s) = maktabBroadcast s"
  "published (ws_send ws m s) = published s"
  "role (ws_send ws m s) = role s"
  "readyState (ws_send ws m s) = readyState s"
  by (simp_all add: ws_send_def)

lemma ws_send_sent [simp]:
  "sent (ws_send ws m s) c = sent s c @ (if c = ws \<and> readyState s ws = OPEN then [m] else [])"
  by (simp add: ws_send_def)

lemma ws_close_other [simp]:
  "transmitterSocket (ws_close ws s) = transmitterSocket s"
  "listeners (ws_close ws s) = listeners s"
  "isBroadcasting (ws_close ws s) = isBroadcasting s"
  "initSegment (ws_close ws s) = initSegment s"
  "maktabBroadcast (ws_close ws s) = maktabBroadcast s"
  "published (ws_close ws s) = published s"
  "role (ws_close ws s) = role s"
  "sent (ws_close ws s) = sent s"
  by (simp_all add: ws_close_def)

lemma ws_close_readyState [simp]:
  "readyState (ws_close ws s) c =
     (if c = ws \<and> readyState s ws = OPEN then CLOSING else readyState s c)"
  by (simp add: ws_close_def)

lemma updateGlobalState_other [simp]:
  "transmitterSocket (updateGlobalState s) = transmitterSocket s"
  "listeners (updateGlobalState s) = listeners s"
  "isBroadcasting (updateGlobalState s) = isBroadcasting s"
  "initSegment (updateGlobalState s) = initSegment s"
  "role (updateGlobalState s) = role s"
  "readyState (updateGlobalState s) = readyState s"
  "sent (updateGlobalState s) = sent s"
  by (simp_all add: updateGlobalState_def Let_def)

lemma updateGlobalState_snapshot [simp]:
  "maktabBroadcast (updateGlobalState s) =
     \<lparr> isLive = isBroadcasting s, listenerCount = length (listeners s) \<rparr>"
  "published (updateGlobalState s) =
     published s @ [\<lparr> isLive = isBroadcasting s, listenerCount = length (listeners s) \<rparr>]"
  by (simp_all add: updateGlobalState_def Let_def)

lemma sendListenerCount_other [simp]:
  "transmitterSocket (sendListenerCount s) = transmitterSocket s"
  "listeners (sendListenerCount s) = listeners s"
  "isBroadcasting (sendListenerCount s) = isBroadcasting s"
  "initSegment (sendListenerCount s) = initSegment s"
  "maktabBroadcast (sendListenerCount s) = maktabBroadcast s"
  "published (sendListenerCount s) = published s"
  "role (sendListenerCount s) = role s"
  "readyState (sendListenerCount s) = readyState s"
  by (simp_all add: sendListenerCount_def split: option.splits)

lemma sendListenerCount_sent [simp]:
  "sent (sendListenerCount s) c =
     sent s c @ (if transmitterSocket s = Some c \<and> readyState s c = OPEN
                 then [Json (Listener_count (length (listeners s)))] else [])"
  by (auto simp: sendListenerCount_def split: option.splits)

lemma fold_send:
  "fold (\<lambda>ws t. if readyState t ws = OPEN then ws_send ws m t else t) xs s =
     s\<lparr> sent := (\<lambda>c. sent s c @
            (if readyState s c = OPEN then replicate (count_list xs c) m else [])) \<rparr>"
proof (induction xs arbitrary: s)
  case Nil
  show ?case by (simp cong: if_cong)
next
  case (Cons a xs)
  show ?case
  proof (cases "readyState s a = OPEN")
    case True
    then show ?thesis
      by (simp add: Cons.IH ws_send_def fun_eq_iff replicate_app_Cons_same)
  next
    case False
    then show ?thesis
      by (simp add: Cons.IH fun_eq_iff)
  qed
qed

lemma broadcastJSON_other [simp]:
  "transmitterSocket (broadcastJSON m s) = transmitterSocket s"
  "listeners (broadcastJSON m s) = listeners s"
  "isBroadcasting (broadcastJSON m s) = isBroadcasting s"
  "initSegment (broadcastJSON m s) = initSegment s"
  "maktabBroadcast (broadcastJSON m s) = maktabBroadcast s"
  "published (broadcastJSON m s) = published s"
  "role (broadcastJSON m s) = role s"
  "readyState (broadcastJSON m s) = readyState s"
  by (simp_all add: broadcastJSON_def fold_send)

lemma broadcastJSON_sent [simp]:
  "sent (broadcastJSON m s) c =
     sent s c @ (if readyState s c = OPEN
                 then replicate (count_list (listeners s) c) (Json m) else [])"
  by (simp add: broadcastJSON_def fold_send)

lemma broadcastBinary_other [simp]:
  "transmitterSocket (broadcastBinary d s) = transmitterSocket s"
  "listeners (broadcastBinary d s) = listeners s"
  "isBroadcasting (broadcastBinary d s) = isBroadcasting s"
  "initSegment (broadcastBinary d s) = initSegment s"
  "maktabBroadcast (broadcastBinary d s) = maktabBroadcast s"
  "published (broadcastBinary d s) = published s"
  "role (broadcastBinary d s) = role s"
  "readyState (broadcastBinary d s) = readyState s"
  by (simp_all add: broadcastBinary_def fold_send)

lemma broadcastBinary_sent [simp]:
  "sent (broadcastBinary d s) c =
     sent s c @ (if readyState s c = OPEN
                 then replicate (count_list (listeners s) c) (Bin d) else [])"
  by (simp add: broadcastBinary_def fold_send)

lemma count_list_distinct:
  "distinct xs \<Longrightarrow> count_list xs c = (if c \<in> set xs then 1 else 0)"
  by (induction xs) auto

lemmas handler_defs =
  forward_chunk_def register_transmitter_def register_listener_def stop_broadcast_def
  on_close_def Let_def

subsection \<open>One event\<close>

lemma distinct_set_add: "distinct xs \<Longrightarrow> distinct (set_add ws xs)"
  by (simp add: set_add_def)

lemma step_cases:
  obtains
    (same) "step P V s ev = s"
  | (chunk) ws d where "ev = Message ws (Binary d)" "role s ws = Some Transmitter"
      "step P V s ev = forward_chunk d s"
  | (bad_json) ws d where "ev = Message ws (Text d)" "P d = None"
      "step P V s ev = ws_send ws (Json (Error ''Invalid JSON'')) s"
  | (unauthorized) ws d tok where "ev = Message ws (Text d)"
      "P d = Some (Msg (JString ''transmitter'') tok)"
      "step P V s ev = ws_close ws (ws_send ws (Json (Error ''Unauthorized'')) s)"
  | (reg_t) ws d tok where "ev = Message ws (Text d)"
      "P d = Some (Msg (JString ''transmitter'') tok)"
      "step P V s ev = register_transmitter ws s"
  | (reg_l) ws d tok where "ev = Message ws (Text d)"
      "P d = Some (Msg (JString ''listener'') tok)"
      "step P V s ev = register_listener ws s"
  | (stop) ws d tok where "ev = Message ws (Text d)"
      "P d = Some (Msg (JString ''stop'') tok)" "role s ws = Some Transmitter"
      "step P V s ev = stop_broadcast ws s"
  | (close_t) ws where "ev = Close ws" "role s ws = Some Transmitter"
      "step P V s ev = on_close ws (s\<lparr> readyState := (readyState s)(ws := CLOSED) \<rparr>)"
  | (close_l) ws where "ev = Close ws" "role s ws = Some Listener"
      "step P V s ev = on_close ws (s\<lparr> readyState := (readyState s)(ws := CLOSED) \<rparr>)"
  | (close_n) ws where "ev = Close ws" "role s ws = None"
      "step P V s ev = s\<lparr> readyState := (readyState s)(ws := CLOSED) \<rparr>"
proof (cases ev)
  case (Message ws fr)
  show ?thesis
  proof (cases fr)
    case (Binary d)
    with Message show ?thesis
      using same chunk by (cases "role s ws = Some Transmitter") (simp_all add: on_message_def)
  next
    case (Text d)
    show ?thesis
    proof (cases "P d")
      case None
      with Message Text show ?thesis using bad_json by (simp add: on_message_def)
    next
      case (Some m)
      show ?thesis
      proof (cases m)
        case Null_msg
        with Message Text Some show ?thesis using same by (simp add: on_message_def)
      next
        case (Msg ty tok)
        with Message Text Some have eq: "step P V s ev =
            (if ty = JString ''transmitter'' then
               (case verifyAdminToken V (if truthy tok then tok else JString []) of
                  None \<Rightarrow> ws_close ws (ws_send ws (Json (Error ''Unauthorized'')) s)
                | Some p \<Rightarrow> register_transmitter ws s)
             else if ty = JString ''listener'' then register_listener ws s
             else if ty = JString ''stop'' \<and> role s ws = Some Transmitter
               then stop_broadcast ws s
             else s)"
          by (simp add: on_message_def split: option.splits)
        consider (a) "ty = JString ''transmitter''"
            "verifyAdminToken V (if truthy tok then tok else JString []) = None"
          | (b) "ty = JString ''transmitter''"
            "verifyAdminToken V (if truthy tok then tok else JString []) \<noteq> None"
          | (c) "ty \<noteq> JString ''transmitter''" "ty = JString ''listener''"
          | (d) "ty \<noteq> JString ''transmitter''" "ty \<noteq> JString ''listener''"
            "ty = JString ''stop'' \<and> role s ws = Some Transmitter"
          | (e) "ty \<noteq> JString ''transmitter''" "ty \<noteq> JString ''listener''"
            "\<not> (ty = JString ''stop'' \<and> role s ws = Some Transmitter)"
          by blast
        then show ?thesis
        proof cases
          case a
          with eq have "step P V s ev = ws_close ws (ws_send ws (Json (Error ''Unauthorized'')) s)"
            by simp
          with a Some Msg Message Text show ?thesis using unauthorized by blast
        next
          case b
          with eq have "step P V s ev = register_transmitter ws s" by auto
          with b Some Msg Message Text show ?thesis using reg_t by blast
        next
          case c
          with eq have "step P V s ev = register_listener ws s" by simp
          with c Some Msg Message Text show ?thesis using reg_l by blast
        next
          case d
          with eq have "step P V s ev = stop_broadcast ws s" by simp
          with d Some Msg Message Text show ?thesis using stop by blast
        next
          case e
          with eq have "step P V s ev = s" by auto
          then show ?thesis using same by blast
        qed
      qed
    qed
  qed
next
  case (Close ws)
  show ?thesis
  proof (cases "role s ws")
    case None
    with Close show ?thesis using close_n by (simp add: on_close_def)
  next
    case (Some r)
    with Close show ?thesis using close_t close_l by (cases r) simp_all
  qed
qed


lemma listeners_step:
  "listeners (step P V s ev) = listeners s \<or>
   (\<exists>ws. listeners (step P V s ev) = set_add ws (listeners s)) \<or>
   (\<exists>ws. listeners (step P V s ev) = removeAll ws (listeners s))"
  by (cases rule: step_cases [of P V s ev])
     (auto simp: handler_defs split: option.splits)

lemma distinct_step: "distinct (listeners s) \<Longrightarrow> distinct (listeners (step P V s ev))"
  using listeners_step [of P V s ev] by (auto simp: distinct_set_add distinct_removeAll)

lemma run_snoc: "run P V (evs @ [ev]) = step P V (run P V evs) ev"
  by (simp add: run_def)

lemma distinct_run: "distinct (listeners (run P V evs))"
proof (induction evs rule: rev_induct)
  case Nil
  show ?case by (simp add: run_def init_state_def)
next
  case (snoc ev evs)
  then show ?case by (simp add: run_snoc distinct_step)
qed

lemma published_step:
  "published (step P V s ev) = published s \<or>
   published (step P V s ev) = published s @ [\<lparr> isLive = isBroadcasting (step P V s ev), listenerCount = length (listeners (step P V s ev)) \<rparr>]"
  by (cases rule: step_cases [of P V s ev])
     (auto simp: handler_defs split: option.splits)

lemma snapshot_step:
  "listenerCount (maktabBroadcast s) = length (listeners s) \<Longrightarrow>
   listenerCount (maktabBroadcast (step P V s ev)) = length (listeners (step P V s ev))"
  by (cases rule: step_cases [of P V s ev])
     (auto simp: handler_defs split: option.splits)

lemma sent_step:
  "\<exists>xs. sent (step P V s ev) c = sent s c @ xs \<and>
        (\<forall>n. Json (Listener_count n) \<in> set xs \<longrightarrow> n = length (listeners (step P V s ev)))"
  by (cases rule: step_cases [of P V s ev])
     (auto simp: handler_defs split: option.splits)

lemma snapshot_run:
  "listenerCount (maktabBroadcast (run P V evs)) = length (listeners (run P V evs))"
proof (induction evs rule: rev_induct)
  case Nil
  show ?case by (simp add: run_def init_state_def)
next
  case (snoc ev evs)
  then show ?case by (simp add: run_snoc snapshot_step)
qed

section \<open>The claims\<close>

subsection \<open>C3: a transmitter registration whose token fails verification\<close>

lemma verifyAdminToken_None:
  "verifyAdminToken jwtVerify token = None \<longleftrightarrow>
     jwtVerify token = None \<or>
     (\<exists>p. jwtVerify token = Some p \<and> map_of p ''role'' \<noteq> Some (JString ''admin''))"
  by (auto simp: verifyAdminToken_def split: option.splits)

text \<open>
  C3. A text frame that parses to a message of type \<^verbatim>\<open>transmitter\<close> and whose token
  (or the empty string, when the token is missing or falsy) fails \<open>verifyAdminToken\<close>:
  an open connection is sent the error message \<^verbatim>\<open>Unauthorized\<close> and is then closed
  by the server; whatever its state, the connection is not open afterwards, no other
  connection is written to or closed, and \<open>isBroadcasting\<close>, \<open>transmitterSocket\<close>,
  \<open>initSegment\<close>, the listener set, the snapshot, the list of published snapshots
  and every role are as before.
\<close>

theorem unauthorized_transmitter_rejected:
  assumes "JSON_parse d = Some (Msg (JString ''transmitter'') tok)"
      and "verifyAdminToken jwtVerify (if truthy tok then tok else JString []) = None"
  shows "let s' = step JSON_parse jwtVerify s (Message ws (Text d)) in
     (readyState s ws = OPEN \<longrightarrow>
        sent s' ws = sent s ws @ [Json (Error ''Unauthorized'')] \<and> readyState s' ws = CLOSING) \<and>
     readyState s' ws \<noteq> OPEN \<and>
     (\<forall>c. c \<noteq> ws \<longrightarrow> sent s' c = sent s c \<and> readyState s' c = readyState s c) \<and>
     isBroadcasting s' = isBroadcasting s \<and> transmitterSocket s' = transmitterSocket s \<and>
     initSegment s' = initSegment s \<and> listeners s' = listeners s \<and>
     maktabBroadcast s' = maktabBroadcast s \<and> published s' = published s \<and> role s' = role s"
proof -
  have "step JSON_parse jwtVerify s (Message ws (Text d)) =
        ws_close ws (ws_send ws (Json (Error ''Unauthorized'')) s)"
    using assms by (simp add: on_message_def)
  then show ?thesis by (simp add: Let_def)
qed

text \<open>
  C3 at an input: connection 1 of the fresh server sends a token the verifier
  refuses, while connection 2 stays untouched.
\<close>

theorem unauthorized_transmitter_rejected_witness:
  "example_parse text_transmitter_guess = Some (Msg (JString ''transmitter'') (JString ''guess'')) \<and>
   verifyAdminToken example_verify
     (if truthy (JString ''guess'') then JString ''guess'' else JString []) = None \<and>
   readyState init_state 1 = OPEN \<and> (2::nat) \<noteq> 1 \<and>
   (let s' = step example_parse example_verify init_state (Message 1 (Text text_transmitter_guess))
    in sent s' 1 = [Json (Error ''Unauthorized'')] \<and> readyState s' 1 = CLOSING \<and>
       sent s' 2 = [] \<and> readyState s' 2 = OPEN \<and>
       transmitterSocket s' = None \<and> \<not> isBroadcasting s' \<and>
       published s' = published init_state)"
proof -
  have p: "example_parse text_transmitter_guess =
           Some (Msg (JString ''transmitter'') (JString ''guess''))"
    by code_simp
  have v: "verifyAdminToken example_verify
             (if truthy (JString ''guess'') then JString ''guess'' else JString []) = None"
    by code_simp
  show ?thesis
    using p v
      unauthorized_transmitter_rejected [where JSON_parse = example_parse
        and jwtVerify = example_verify and d = text_transmitter_guess
        and tok = "JString ''guess''" and s = init_state and ws = 1]
    by (simp add: Let_def init_state_def)
qed

subsection \<open>C4: a text frame that is not JSON\<close>

text \<open>
  C4. A text frame on which \<^verbatim>\<open>JSON.parse\<close> throws, on any connection and in any
  state: an open connection is sent the error message \<^verbatim>\<open>Invalid JSON\<close>, no other
  connection is written to, no socket changes its ready state (the connection stays
  open), and roles, transmitter slot, listener set, live flag, init segment and
  snapshot are as before.
\<close>

theorem malformed_text_answered:
  assumes "JSON_parse d = None"
  shows "let s' = step JSON_parse jwtVerify s (Message ws (Text d)) in
     (readyState s ws = OPEN \<longrightarrow> sent s' ws = sent s ws @ [Json (Error ''Invalid JSON'')]) \<and>
     (\<forall>c. c \<noteq> ws \<longrightarrow> sent s' c = sent s c) \<and>
     readyState s' = readyState s \<and> role s' = role s \<and>
     transmitterSocket s' = transmitterSocket s \<and> listeners s' = listeners s \<and>
     isBroadcasting s' = isBroadcasting s \<and> initSegment s' = initSegment s \<and>
     maktabBroadcast s' = maktabBroadcast s \<and> published s' = published s"
proof -
  have "step JSON_parse jwtVerify s (Message ws (Text d)) =
        ws_send ws (Json (Error ''Invalid JSON'')) s"
    using assms by (simp add: on_message_def)
  then show ?thesis by (simp add: Let_def)
qed

text \<open>
  C4 at an input: listener 2 of a live broadcast sends a text that is no JSON.
\<close>

theorem malformed_text_answered_witness:
  "example_parse text_garbage = None \<and>
   (let s = example_run [as_transmitter 1, as_listener 2];
        s' = step example_parse example_verify s (Message 2 (Text text_garbage))
    in readyState s 2 = OPEN \<and> (1::nat) \<noteq> 2 \<and>
       sent s' 2 = [Json Broadcast_start, Json (Error ''Invalid JSON'')] \<and>
       sent s' 1 = sent s 1 \<and> readyState s' 2 = OPEN \<and>
       transmitterSocket s' = Some 1 \<and> listeners s' = [2] \<and> isBroadcasting s')"
proof -
  have p: "example_parse text_garbage = None"
    by code_simp
  have s: "readyState (example_run [as_transmitter 1, as_listener 2]) 2 = OPEN"
    "sent (example_run [as_transmitter 1, as_listener 2]) 2 = [Json Broadcast_start]"
    "transmitterSocket (example_run [as_transmitter 1, as_listener 2]) = Some 1"
    "listeners (example_run [as_transmitter 1, as_listener 2]) = [2]"
    "isBroadcasting (example_run [as_transmitter 1, as_listener 2])"
    by code_simp+
  show ?thesis
    using p s
      malformed_text_answered [where JSON_parse = example_parse
        and jwtVerify = example_verify and d = text_garbage
        and s = "example_run [as_transmitter 1, as_listener 2]" and ws = 2]
    by (simp add: Let_def)
qed

subsection \<open>C6: the published listener count\<close>

text \<open>
  C6. After any sequence of events, whatever the next event is: every snapshot it
  publishes and every \<^verbatim>\<open>listener-count\<close> message it sends to any socket carries the
  size of the listener set (no handler changes the set after it has published or
  sent the count, so this is the set at that instant), and the current snapshot
  carries that size as well.
\<close>

theorem listenerCount_is_listener_set_size:
  "let s = run JSON_parse jwtVerify evs; s' = step JSON_parse jwtVerify s ev in
     (\<forall>g \<in> set (drop (length (published s)) (published s')).
         listenerCount g = card (set (listeners s'))) \<and>
     (\<forall>c n. Json (Listener_count n) \<in> set (drop (length (sent s c)) (sent s' c)) \<longrightarrow>
         n = card (set (listeners s'))) \<and>
     listenerCount (maktabBroadcast s') = card (set (listeners s'))"
proof -
  define s where "s = run JSON_parse jwtVerify evs"
  define s' where "s' = step JSON_parse jwtVerify s ev"
  have s': "s' = run JSON_parse jwtVerify (evs @ [ev])"
    by (simp add: s'_def s_def run_snoc)
  have card: "card (set (listeners s')) = length (listeners s')"
    unfolding s' by (rule distinct_card) (rule distinct_run)
  have a: "\<forall>g \<in> set (drop (length (published s)) (published s')).
         listenerCount g = length (listeners s')"
    using published_step [of JSON_parse jwtVerify s ev] unfolding s'_def by auto
  have b: "\<forall>c n. Json (Listener_count n) \<in> set (drop (length (sent s c)) (sent s' c)) \<longrightarrow>
         n = length (listeners s')"
  proof (intro allI impI)
    fix c n
    assume m: "Json (Listener_count n) \<in> set (drop (length (sent s c)) (sent s' c))"
    obtain xs where "sent s' c = sent s c @ xs"
      and "\<forall>n. Json (Listener_count n) \<in> set xs \<longrightarrow> n = length (listeners s')"
      using sent_step [of JSON_parse jwtVerify s ev c] unfolding s'_def by blast
    with m show "n = length (listeners s')" by simp
  qed
  have c: "listenerCount (maktabBroadcast s') = length (listeners s')"
    unfolding s' by (rule snapshot_run)
  show ?thesis
    using a b c card unfolding Let_def
    by (simp add: s_def [symmetric] s'_def [symmetric])
qed

text \<open>
  C6 at an input: while connection 1 transmits and connection 2 listens, connection
  3 joins as a listener. The join publishes one snapshot and sends one count to the
  transmitter; both say 2.
\<close>

theorem listenerCount_is_listener_set_size_witness:
  "(let s = run example_parse example_verify [as_transmitter 1, as_listener 2];
        s' = step example_parse example_verify s (as_listener 3)
    in \<lparr> isLive = True, listenerCount = 2 \<rparr> \<in> set (drop (length (published s)) (published s')) \<and>
       Json (Listener_count 2) \<in> set (drop (length (sent s 1)) (sent s' 1)) \<and>
       card (set (listeners s')) = 2 \<and>
       listenerCount (maktabBroadcast s') = 2)"
proof -
  define s where "s = run example_parse example_verify [as_transmitter 1, as_listener 2]"
  define s' where "s' = step example_parse example_verify s (as_listener 3)"
  have g: "\<lparr> isLive = True, listenerCount = 2 \<rparr> \<in> set (drop (length (published s)) (published s'))"
    unfolding s'_def s_def by code_simp
  have m: "Json (Listener_count 2) \<in> set (drop (length (sent s 1)) (sent s' 1))"
    unfolding s'_def s_def by code_simp
  have all: "(\<forall>g \<in> set (drop (length (published s)) (published s')).
         listenerCount g = card (set (listeners s'))) \<and>
     (\<forall>c n. Json (Listener_count n) \<in> set (drop (length (sent s c)) (sent s' c)) \<longrightarrow>
         n = card (set (listeners s'))) \<and>
     listenerCount (maktabBroadcast s') = card (set (listeners s'))"
    using listenerCount_is_listener_set_size
      [of example_parse example_verify "[as_transmitter 1, as_listener 2]" "as_listener 3"]
    unfolding Let_def s_def [symmetric] s'_def [symmetric] .
  have "2 = card (set (listeners s'))"
  proof -
    from all have "\<forall>c n. Json (Listener_count n) \<in> set (drop (length (sent s c)) (sent s' c)) \<longrightarrow>
         n = card (set (listeners s'))"
      by (elim conjE)
    then show ?thesis using m by (elim allE [where x = 1] allE [where x = 2]) (erule mp)
  qed
  then have n: "card (set (listeners s')) = 2" by (rule sym)
  show ?thesis
    using g m n all unfolding Let_def s_def [symmetric] s'_def [symmetric] by simp
qed

subsection \<open>C10: stop, then the close event of the same connection\<close>

text \<open>
  C10. In a state reached by any sequence of events, a connection whose role is
  \<^verbatim>\<open>'transmitter'\<close> sends \<^verbatim>\<open>stop\<close> and its close event follows. The role is still
  \<^verbatim>\<open>'transmitter'\<close> after the stop, so the close handler takes the transmitter branch
  again: every listener whose connection is open when the close event is handled has
  been sent \<^verbatim>\<open>broadcast-end\<close> twice, and each of the two handlers has published the
  snapshot.
\<close>

theorem stop_then_close_ends_twice:
  assumes "role (run JSON_parse jwtVerify evs) ws = Some Transmitter"
      and "JSON_parse d = Some (Msg (JString ''stop'') tok)"
  shows "let s = run JSON_parse jwtVerify evs;
             s1 = step JSON_parse jwtVerify s (Message ws (Text d));
             s2 = step JSON_parse jwtVerify s1 (Close ws);
             g = \<lparr> isLive = False, listenerCount = length (listeners s) \<rparr>
         in role s1 ws = Some Transmitter \<and>
            (\<forall>l \<in> set (listeners s). readyState s2 l = OPEN \<longrightarrow>
               sent s2 l = sent s l @ [Json Broadcast_end, Json Broadcast_end]) \<and>
            published s1 = published s @ [g] \<and>
            published s2 = published s1 @ [g]"
proof -
  define s where "s = run JSON_parse jwtVerify evs"
  define s1 where "s1 = step JSON_parse jwtVerify s (Message ws (Text d))"
  define s2 where "s2 = step JSON_parse jwtVerify s1 (Close ws)"
  have r: "role s ws = Some Transmitter" using assms(1) by (simp add: s_def)
  have dist: "distinct (listeners s)" unfolding s_def by (rule distinct_run)
  have s1: "s1 = stop_broadcast ws s"
    using assms(2) r by (simp add: s1_def on_message_def)
  have r1: "role s1 ws = Some Transmitter"
    using r by (simp add: s1 stop_broadcast_def Let_def)
  have s2: "s2 = on_close ws (s1\<lparr> readyState := (readyState s1)(ws := CLOSED) \<rparr>)"
    by (simp add: s2_def)
  have p1: "published s1 =
      published s @ [\<lparr> isLive = False, listenerCount = length (listeners s) \<rparr>]"
    by (simp add: s1 stop_broadcast_def Let_def)
  have l1: "listeners s1 = listeners s"
    by (simp add: s1 stop_broadcast_def Let_def)
  have p2: "published s2 =
      published s1 @ [\<lparr> isLive = False, listenerCount = length (listeners s) \<rparr>]"
    using r1 l1 by (simp add: s2 on_close_def Let_def)
  have twice: "sent s2 l = sent s l @ [Json Broadcast_end, Json Broadcast_end]"
    if "l \<in> set (listeners s)" and "readyState s2 l = OPEN" for l
  proof -
    have ne: "l \<noteq> ws"
      using that(2) r1 by (auto simp: s2 on_close_def Let_def)
    have o1: "readyState s1 l = OPEN"
      using that(2) r1 ne by (simp add: s2 on_close_def Let_def)
    have o: "readyState s l = OPEN"
      using o1 ne by (simp add: s1 stop_broadcast_def Let_def)
    have a: "sent s1 l = sent s l @ [Json Broadcast_end]"
      using o that(1) dist by (simp add: s1 stop_broadcast_def Let_def count_list_distinct)
    have b: "sent s2 l = sent s1 l @ [Json Broadcast_end]"
      using o1 ne r1 l1 that(1) dist
      by (simp add: s2 on_close_def Let_def count_list_distinct)
    show ?thesis using a b by simp
  qed
  show ?thesis
    using r1 p1 p2 twice
    unfolding Let_def s_def [symmetric] s1_def [symmetric] s2_def [symmetric]
    by blast
qed

text \<open>
  C10 at an input: connection 2 listens, connection 1 transmits, sends stop and
  closes. Listener 2 has then read its first \<^verbatim>\<open>broadcast-end\<close> (it joined while
  idle), \<^verbatim>\<open>broadcast-start\<close>, and \<^verbatim>\<open>broadcast-end\<close> twice.
\<close>

theorem stop_then_close_ends_twice_witness:
  "(let s = run example_parse example_verify [as_listener 2, as_transmitter 1];
        s1 = step example_parse example_verify s (Message 1 (Text text_stop));
        s2 = step example_parse example_verify s1 (Close 1)
    in role s 1 = Some Transmitter \<and>
       example_parse text_stop = Some (Msg (JString ''stop'') JUndefined) \<and>
       2 \<in> set (listeners s) \<and> readyState s2 2 = OPEN \<and>
       sent s2 2 =
         [Json Broadcast_end, Json Broadcast_start, Json Broadcast_end, Json Broadcast_end] \<and>
       role s1 1 = Some Transmitter \<and> length (published s2) = length (published s) + 2)"
proof -
  define s where "s = run example_parse example_verify [as_listener 2, as_transmitter 1]"
  define s1 where "s1 = step example_parse example_verify s (Message 1 (Text text_stop))"
  define s2 where "s2 = step example_parse example_verify s1 (Close 1)"
  have r: "role (run example_parse example_verify [as_listener 2, as_transmitter 1]) 1 =
           Some Transmitter"
    by code_simp
  have p: "example_parse text_stop = Some (Msg (JString ''stop'') JUndefined)"
    by code_simp
  have l: "2 \<in> set (listeners s)" unfolding s_def by code_simp
  have o: "readyState s2 2 = OPEN" unfolding s2_def s1_def s_def by code_simp
  have before: "sent s 2 = [Json Broadcast_end, Json Broadcast_start]"
    unfolding s_def by code_simp
  have all: "role s1 1 = Some Transmitter \<and>
      (\<forall>l \<in> set (listeners s). readyState s2 l = OPEN \<longrightarrow>
         sent s2 l = sent s l @ [Json Broadcast_end, Json Broadcast_end]) \<and>
      published s1 = published s @ [\<lparr> isLive = False, listenerCount = length (listeners s) \<rparr>] \<and>
      published s2 = published s1 @ [\<lparr> isLive = False, listenerCount = length (listeners s) \<rparr>]"
    using stop_then_close_ends_twice [OF r p]
    unfolding Let_def s_def [symmetric] s1_def [symmetric] s2_def [symmetric] .
  have twice: "sent s2 2 = sent s 2 @ [Json Broadcast_end, Json Broadcast_end]"
    using all l o by blast
  have len: "length (published s2) = length (published s) + 2"
    using all by simp
  show ?thesis
    using r p l o twice before all len
    unfolding Let_def s_def [symmetric] s1_def [symmetric] s2_def [symmetric]
    by simp
qed

subsection \<open>C9: transmitter slot and listener set\<close>

lemma transmitterSocket_step:
  "transmitterSocket (step P V s ev) = Some ws \<Longrightarrow>
   transmitterSocket s = Some ws \<or> registers_as P ''transmitter'' ws ev"
  by (cases rule: step_cases [of P V s ev])
     (auto simp: handler_defs split: option.splits if_splits)

lemma listeners_member_step:
  "ws \<in> set (listeners (step P V s ev)) \<Longrightarrow>
   ws \<in> set (listeners s) \<or> registers_as P ''listener'' ws ev"
  by (cases rule: step_cases [of P V s ev])
     (auto simp: handler_defs set_add_def split: option.splits if_splits)

lemma transmitterSocket_run:
  "transmitterSocket (run P V evs) = Some ws \<Longrightarrow> sends P ''transmitter'' ws evs"
proof (induction evs rule: rev_induct)
  case Nil
  then show ?case by (simp add: run_def init_state_def)
next
  case (snoc ev evs)
  then show ?case
    using transmitterSocket_step [of P V "run P V evs" ev ws]
    by (auto simp: run_snoc sends_def)
qed

lemma listeners_run:
  "ws \<in> set (listeners (run P V evs)) \<Longrightarrow> sends P ''listener'' ws evs"
proof (induction evs rule: rev_induct)
  case Nil
  then show ?case by (simp add: run_def init_state_def)
next
  case (snoc ev evs)
  then show ?case
    using listeners_member_step [of ws P V "run P V evs" ev]
    by (auto simp: run_snoc sends_def)
qed

text \<open>
  What holds. One event keeps the transmitter slot and the listener set apart unless
  it is a \<^verbatim>\<open>listener\<close> message of the connection in the slot or a
  \<^verbatim>\<open>transmitter\<close> message of a member of the listener set; they are apart after
  every sequence in which no connection sends both kinds of message.
\<close>

lemma one_role_step:
  assumes "\<forall>ws. \<not> (transmitterSocket s = Some ws \<and> ws \<in> set (listeners s))"
      and "\<forall>ws. registers_as P ''listener'' ws ev \<longrightarrow> transmitterSocket s \<noteq> Some ws"
      and "\<forall>ws. registers_as P ''transmitter'' ws ev \<longrightarrow> ws \<notin> set (listeners s)"
  shows "\<forall>ws. \<not> (transmitterSocket (step P V s ev) = Some ws \<and>
                  ws \<in> set (listeners (step P V s ev)))"
  using assms
  by (cases rule: step_cases [of P V s ev])
     (auto simp: handler_defs set_add_def split: option.splits if_splits)

lemma single_registration_single_role:
  assumes "\<forall>ws. sends P ''transmitter'' ws evs \<longrightarrow> \<not> sends P ''listener'' ws evs"
  shows "\<forall>ws. \<not> (transmitterSocket (run P V evs) = Some ws \<and>
                  ws \<in> set (listeners (run P V evs)))"
  using assms transmitterSocket_run listeners_run by blast

text \<open>
  C9, evaluated. Connection 1 registers as transmitter and then sends
  \<^verbatim>\<open>{ type: 'listener' }\<close>: the handler overwrites its role and adds it to the
  listener set, and leaves it in the transmitter slot. Connection 1 is then the
  registered transmitter and a member of the listener set. When it closes, the close
  handler takes the listener branch only: the closed socket stays in the slot, the
  live flag stays true and the snapshot says live with no listener.
\<close>

theorem transmitter_also_listener:
  "transmitterSocket (example_run [as_transmitter 1, as_listener 1]) = Some 1 \<and>
   1 \<in> set (listeners (example_run [as_transmitter 1, as_listener 1])) \<and>
   role (example_run [as_transmitter 1, as_listener 1]) 1 = Some Listener \<and>
   transmitterSocket (example_run [as_transmitter 1, as_listener 1, Close 1]) = Some 1 \<and>
   readyState (example_run [as_transmitter 1, as_listener 1, Close 1]) 1 = CLOSED \<and>
   isBroadcasting (example_run [as_transmitter 1, as_listener 1, Close 1]) \<and>
   maktabBroadcast (example_run [as_transmitter 1, as_listener 1, Close 1]) =
     \<lparr> isLive = True, listenerCount = 0 \<rparr>"
  by code_simp

subsection \<open>The close handler does not ask whether the closing socket is the transmitter\<close>

text \<open>
  The registration of a second transmitter closes the first (\<^verbatim>\<open>// If another
  transmitter is active, close the old one\<close>) and takes the slot. The first
  connection keeps its role \<^verbatim>\<open>'transmitter'\<close>, and the handlers test the role, never
  \<^verbatim>\<open>transmitterSocket === ws\<close>: the close event of the first connection, and any
  late frame or stop of it, is handled as if it were the transmitter's. The five
  evaluations below follow from this.
\<close>

lemma register_transmitter_evicts:
  assumes "transmitterSocket s = Some old" and "readyState s old = OPEN" and "old \<noteq> ws"
  shows "readyState (register_transmitter ws s) old = CLOSING"
    and "transmitterSocket (register_transmitter ws s) = Some ws"
    and "isBroadcasting (register_transmitter ws s)"
    and "initSegment (register_transmitter ws s) = None"
    and "role (register_transmitter ws s) old = role s old"
  using assms by (simp_all add: register_transmitter_def Let_def)

lemma non_transmitter_frames_ignored:
  assumes "role s ws \<noteq> Some Transmitter"
  shows "step P V s (Message ws (Binary d)) = s"
    and "P t = Some (Msg (JString ''stop'') tok) \<Longrightarrow> step P V s (Message ws (Text t)) = s"
  using assms by (simp_all add: on_message_def)

lemma unrecognised_type_ignored:
  assumes "P t = Some (Msg ty tok)"
      and "ty \<noteq> JString ''transmitter''" and "ty \<noteq> JString ''listener''"
      and "ty \<noteq> JString ''stop''"
  shows "step P V s (Message ws (Text t)) = s"
  using assms by (simp add: on_message_def)

lemma close_unregistered:
  assumes "role s ws = None"
  shows "step P V s (Close ws) = s\<lparr> readyState := (readyState s)(ws := CLOSED) \<rparr>"
  using assms by (simp add: on_close_def)

lemma register_listener_reply:
  assumes "readyState s ws = OPEN" and "transmitterSocket s \<noteq> Some ws"
  shows "sent (register_listener ws s) ws =
     sent s ws @
       (if isBroadcasting s
        then Json Broadcast_start # (case initSegment s of None \<Rightarrow> [] | Some seg \<Rightarrow> [Bin seg])
        else [Json Broadcast_end])"
  using assms by (simp add: register_listener_def Let_def split: option.splits)

lemma forward_chunk_initSegment:
  "initSegment (forward_chunk d s) =
     (case initSegment s of None \<Rightarrow> Some d | Some seg \<Rightarrow> Some seg)"
  by (simp add: forward_chunk_def split: option.splits)

lemma forward_chunk_sent:
  assumes "distinct (listeners s)" and "l \<in> set (listeners s)" and "readyState s l = OPEN"
  shows "sent (forward_chunk d s) l = sent s l @ [Bin d]"
  using assms by (simp add: forward_chunk_def count_list_distinct)

text \<open>
  C1, evaluated. A listener (connection 3) is present; connection 1 registers and
  sends the chunk \<open>[1, 2]\<close>; connection 2 registers. In that event connection 1 is
  closed by the server, connection 2 holds the slot and the init segment is
  discarded. Then the close event of connection 1 arrives: the slot is emptied, the
  live flag and the snapshot go to false and the listener is sent \<^verbatim>\<open>broadcast-end\<close>.
  The next chunk of connection 2, \<open>[7]\<close>, is forwarded all the same. The listener
  has read start, \<open>[1, 2]\<close>, start, end, \<open>[7]\<close> after its first \<^verbatim>\<open>broadcast-end\<close>.
\<close>

theorem eviction_then_old_close_ends_new_broadcast:
  "transmitterSocket (example_run [as_listener 3, as_transmitter 1, Message 1 (Binary [1, 2]),
       as_transmitter 2]) = Some 2 \<and>
   readyState (example_run [as_listener 3, as_transmitter 1, Message 1 (Binary [1, 2]),
       as_transmitter 2]) 1 = CLOSING \<and>
   initSegment (example_run [as_listener 3, as_transmitter 1, Message 1 (Binary [1, 2]),
       as_transmitter 2]) = None \<and>
   transmitterSocket (example_run [as_listener 3, as_transmitter 1, Message 1 (Binary [1, 2]),
       as_transmitter 2, Close 1]) = None \<and>
   \<not> isBroadcasting (example_run [as_listener 3, as_transmitter 1, Message 1 (Binary [1, 2]),
       as_transmitter 2, Close 1]) \<and>
   maktabBroadcast (example_run [as_listener 3, as_transmitter 1, Message 1 (Binary [1, 2]),
       as_transmitter 2, Close 1]) = \<lparr> isLive = False, listenerCount = 1 \<rparr> \<and>
   sent (example_run [as_listener 3, as_transmitter 1, Message 1 (Binary [1, 2]),
       as_transmitter 2, Close 1, Message 2 (Binary [7])]) 3 =
     [Json Broadcast_end, Json Broadcast_start, Bin [1, 2], Json Broadcast_start,
      Json Broadcast_end, Bin [7]]"
  by code_simp

text \<open>
  C2, evaluated. Connection 1 registers, connection 2 registers (connection 1 is
  evicted) and sends the chunk \<open>[7]\<close>. Before the close event of connection 1 the
  slot holds connection 2, the broadcast is live and the init segment is \<open>[7]\<close>.
  The close event of the evicted connection empties the slot, clears the live flag
  and the init segment and publishes a snapshot that is not live.
\<close>

theorem stale_close_clears_transmitter:
  "transmitterSocket (example_run (two_transmitters @ [Message 2 (Binary [7])])) = Some 2 \<and>
   isBroadcasting (example_run (two_transmitters @ [Message 2 (Binary [7])])) \<and>
   initSegment (example_run (two_transmitters @ [Message 2 (Binary [7])])) = Some [7] \<and>
   maktabBroadcast (example_run (two_transmitters @ [Message 2 (Binary [7])])) =
     \<lparr> isLive = True, listenerCount = 0 \<rparr> \<and>
   readyState (example_run (two_transmitters @ [Message 2 (Binary [7])])) 1 = CLOSING \<and>
   transmitterSocket (example_run (two_transmitters @ [Message 2 (Binary [7]), Close 1])) = None \<and>
   \<not> isBroadcasting (example_run (two_transmitters @ [Message 2 (Binary [7]), Close 1])) \<and>
   initSegment (example_run (two_transmitters @ [Message 2 (Binary [7]), Close 1])) = None \<and>
   maktabBroadcast (example_run (two_transmitters @ [Message 2 (Binary [7]), Close 1])) =
     \<lparr> isLive = False, listenerCount = 0 \<rparr>"
  by code_simp

text \<open>
  C5, evaluated. After two transmitters and the close event of the first, the live
  flag is false while connection 2 still transmits. Connection 3 joins as a listener:
  it is sent \<^verbatim>\<open>broadcast-end\<close>. The next chunk of connection 2 is forwarded to it with
  no \<^verbatim>\<open>broadcast-start\<close> in between.
\<close>

theorem idle_join_then_chunk_without_start:
  "\<not> isBroadcasting (example_run (two_transmitters @ [Close 1])) \<and>
   role (example_run (two_transmitters @ [Close 1])) 2 = Some Transmitter \<and>
   readyState (example_run (two_transmitters @ [Close 1])) 2 = OPEN \<and>
   sent (example_run (two_transmitters @ [Close 1, as_listener 3])) 3 = [Json Broadcast_end] \<and>
   sent (example_run (two_transmitters @ [Close 1, as_listener 3, Message 2 (Binary [7])])) 3 =
     [Json Broadcast_end, Bin [7]]"
  by code_simp

text \<open>
  C7, evaluated. Connection 3 listens, connection 1 registers, connection 2
  registers: connection 1 is evicted (closing, not in the slot). Its late chunk
  \<open>[9]\<close> is forwarded to the listener and kept as init segment; its late stop
  empties the slot of connection 2, clears the live flag, sends \<^verbatim>\<open>broadcast-end\<close>
  to the listener and publishes a snapshot.
\<close>

theorem evicted_transmitter_still_heard:
  "transmitterSocket (example_run two_transmitters_heard) = Some 2 \<and>
   readyState (example_run two_transmitters_heard) 1 = CLOSING \<and>
   sent (example_run two_transmitters_heard) 3 =
     [Json Broadcast_end, Json Broadcast_start, Json Broadcast_start] \<and>
   sent (example_run (two_transmitters_heard @ [Message 1 (Binary [9])])) 3 =
     [Json Broadcast_end, Json Broadcast_start, Json Broadcast_start, Bin [9]] \<and>
   initSegment (example_run (two_transmitters_heard @ [Message 1 (Binary [9])])) = Some [9] \<and>
   transmitterSocket (example_run (two_transmitters_heard @ [says_stop 1])) = None \<and>
   \<not> isBroadcasting (example_run (two_transmitters_heard @ [says_stop 1])) \<and>
   sent (example_run (two_transmitters_heard @ [says_stop 1])) 3 =
     [Json Broadcast_end, Json Broadcast_start, Json Broadcast_start, Json Broadcast_end] \<and>
   length (published (example_run (two_transmitters_heard @ [says_stop 1]))) =
     Suc (length (published (example_run two_transmitters_heard)))"
  by code_simp

text \<open>
  C8, evaluated. Connection 2 has evicted connection 1 and sent its first chunk
  \<open>[5]\<close>, which is the init segment. The close event of connection 1 clears the
  live flag and the init segment. The second chunk of connection 2, \<open>[7]\<close>, is then
  kept as init segment: the init segment is set while the live flag is false, and it
  is not the first chunk of the session.
\<close>

theorem initSegment_while_idle:
  "initSegment (example_run (two_transmitters @ [Message 2 (Binary [5])])) = Some [5] \<and>
   initSegment (example_run (two_transmitters @ [Message 2 (Binary [5]), Close 1])) = None \<and>
   initSegment (example_run (two_transmitters @
       [Message 2 (Binary [5]), Close 1, Message 2 (Binary [7])])) = Some [7] \<and>
   \<not> isBroadcasting (example_run (two_transmitters @
       [Message 2 (Binary [5]), Close 1, Message 2 (Binary [7])]))"
  by code_simp

end
